theory Spec2Isabelle
  imports Main
begin

section \<open>The service worker of ponto-eletronico (static/sw.js)\<close>

text \<open>
  The worker has four event handlers (install, activate, fetch, message). Each handler is
  modelled as a function on an explicit worker state. The host platform (network, Cache
  API, Response constructor, JSON serialisation, URL resolution) is modelled by the
  definitions of the first subsections; the handlers themselves follow sw.js line by line.

  Asynchronous chains are modelled run to completion: a handler's promise chain, including
  the \<^verbatim>\<open>cache.put\<close> that the fetch handler starts without waiting for it, is taken
  as finished when the handler's result is observed. A rejected promise is the \<open>Inl\<close> of
  a sum type.
\<close>

subsection \<open>Strings\<close>

definition startsWith :: "string \<Rightarrow> string \<Rightarrow> bool" where
  \<comment> \<open>\<^verbatim>\<open>s.startsWith(p)\<close>\<close>
  "startsWith s p = (take (length p) s = p)"

definition lower_char :: "char \<Rightarrow> char" where
  \<comment> \<open>byte-lowercase of an ASCII letter, as the Headers object does to header names\<close>
  "lower_char c =
     (let n = (of_char c :: nat) in if 65 \<le> n \<and> n \<le> 90 then char_of (n + 32) else c)"

definition lower :: "string \<Rightarrow> string" where
  "lower s = map lower_char s"

subsection \<open>Requests and responses\<close>

text \<open>
  A request carries its method and its URL, already parsed by the platform into origin,
  path and query (\<^verbatim>\<open>new URL(event.request.url)\<close> cannot fail: the URL of a request is
  absolute and serialised by the platform).
\<close>

record request =
  req_method :: string
  origin :: string
  pathname :: string
  search :: string

datatype response_type = Basic | Cors | Default | Error | Opaque | OpaqueRedirect

fun response_type_string :: "response_type \<Rightarrow> string" where
  "response_type_string Basic = ''basic''"
| "response_type_string Cors = ''cors''"
| "response_type_string Default = ''default''"
| "response_type_string Error = ''error''"
| "response_type_string Opaque = ''opaque''"
| "response_type_string OpaqueRedirect = ''opaqueredirect''"

record response =
  status :: nat
  statusText :: string
  rtype :: response_type
  headers :: "(string \<times> string) list"
  body :: string

definition ok :: "response \<Rightarrow> bool" where
  \<comment> \<open>\<^verbatim>\<open>response.ok\<close>: a status in the success range\<close>
  "ok r = (200 \<le> status r \<and> status r \<le> 299)"

definition header_get :: "response \<Rightarrow> string \<Rightarrow> string option" where
  \<comment> \<open>\<^verbatim>\<open>response.headers.get(name)\<close>: header names compare case-insensitively\<close>
  "header_get r name = map_of (headers r) (lower name)"

fun split_on :: "char \<Rightarrow> string \<Rightarrow> string list" where
  "split_on c [] = [[]]"
| "split_on c (x # xs) =
     (if x = c then [] # split_on c xs
      else (case split_on c xs of [] \<Rightarrow> [[x]] | y # ys \<Rightarrow> (x # y) # ys))"

definition trim :: "string \<Rightarrow> string" where
  \<comment> \<open>leading and trailing spaces and tabs removed\<close>
  "trim s =
     (let ws = (\<lambda>c. c = CHR '' '' \<or> c = CHR 0x09)
      in rev (dropWhile ws (rev (dropWhile ws s))))"

definition vary_star :: "response \<Rightarrow> bool" where
  \<comment> \<open>the response has a Vary header one of whose field values is \<^verbatim>\<open>*\<close>\<close>
  "vary_star r =
     list_ex (\<lambda>(n, v). lower n = ''vary'' \<and> list_ex (\<lambda>f. trim f = ''*'') (split_on CHR '','' v))
       (headers r)"

definition Response_new :: "string option \<Rightarrow> (string \<times> string) list \<Rightarrow> response" where
  \<comment> \<open>\<^verbatim>\<open>new Response(body, { headers })\<close>: status 200, empty status text, type
      "default"; header names are lower-cased; a string body without a Content-Type header
      gets the text/plain default\<close>
  "Response_new b hs =
     (let hs' = map (\<lambda>(n, v). (lower n, v)) hs in
      \<lparr> status = 200, statusText = [], rtype = Default,
        headers = (if b \<noteq> None \<and> map_of hs' ''content-type'' = None
                   then hs' @ [(''content-type'', ''text/plain;charset=UTF-8'')] else hs'),
        body = (case b of None \<Rightarrow> [] | Some s \<Rightarrow> s) \<rparr>)"

datatype error = TypeError | InvalidStateError

text \<open>
  The network: \<^verbatim>\<open>fetch(request)\<close> resolves with a response (of any status) or rejects
  with a TypeError (offline, DNS failure, timeout). It is a parameter of the handlers.
\<close>

type_synonym network = "request \<Rightarrow> error + response"

subsection \<open>JavaScript values and JSON.stringify\<close>

datatype js_value =
    JSUndefined | JSNull | JSBoolean bool | JSNumber int | JSString string
  | JSObject "(string \<times> js_value) list"

definition strict_eq_string :: "js_value \<Rightarrow> string \<Rightarrow> bool" where
  \<comment> \<open>\<^verbatim>\<open>v === 'literal'\<close>: true only for a string primitive with the same characters\<close>
  "strict_eq_string v s = (case v of JSString t \<Rightarrow> t = s | _ \<Rightarrow> False)"

definition hex_digit :: "nat \<Rightarrow> char" where
  "hex_digit n = (if n < 10 then char_of (48 + n) else char_of (87 + n))"

definition json_escape_char :: "char \<Rightarrow> string" where
  "json_escape_char c =
     (let n = (of_char c :: nat) in
      if c = CHR ''\"'' then [CHR 0x5C, CHR ''\"'']
      else if c = CHR 0x5C then [CHR 0x5C, CHR 0x5C]
      else if n = 8 then [CHR 0x5C, CHR ''b'']
      else if n = 9 then [CHR 0x5C, CHR ''t'']
      else if n = 10 then [CHR 0x5C, CHR ''n'']
      else if n = 12 then [CHR 0x5C, CHR ''f'']
      else if n = 13 then [CHR 0x5C, CHR ''r'']
      else if n < 32 then [CHR 0x5C, CHR ''u'', CHR ''0'', CHR ''0'',
                           hex_digit (n div 16), hex_digit (n mod 16)]
      else [c])"

definition json_quote :: "string \<Rightarrow> string" where
  "json_quote s = [CHR ''\"''] @ concat (map json_escape_char s) @ [CHR ''\"'']"

fun dec_nat :: "nat \<Rightarrow> string" where
  "dec_nat n = (if n < 10 then [char_of (48 + n)]
                else dec_nat (n div 10) @ [char_of (48 + n mod 10)])"

definition dec_int :: "int \<Rightarrow> string" where
  "dec_int i = (if i < 0 then CHR ''-'' # dec_nat (nat (- i)) else dec_nat (nat i))"

fun join_comma :: "string list \<Rightarrow> string" where
  "join_comma [] = []"
| "join_comma [x] = x"
| "join_comma (x # y # zs) = x @ '','' @ join_comma (y # zs)"

text \<open>
  \<^verbatim>\<open>JSON.stringify(v)\<close>: \<open>None\<close> is JavaScript's undefined; a property whose value
  serialises to undefined is left out of its object.
\<close>

fun JSON_stringify :: "js_value \<Rightarrow> string option"
  and JSON_members :: "(string \<times> js_value) list \<Rightarrow> string list" where
  "JSON_stringify JSUndefined = None"
| "JSON_stringify JSNull = Some ''null''"
| "JSON_stringify (JSBoolean b) = Some (if b then ''true'' else ''false'')"
| "JSON_stringify (JSNumber i) = Some (dec_int i)"
| "JSON_stringify (JSString s) = Some (json_quote s)"
| "JSON_stringify (JSObject ms) = Some (''{'' @ join_comma (JSON_members ms) @ ''}'')"
| "JSON_members [] = []"
| "JSON_members ((k, v) # ms) =
     (case JSON_stringify v of
        None \<Rightarrow> JSON_members ms
      | Some s \<Rightarrow> (json_quote k @ '':'' @ s) # JSON_members ms)"

subsection \<open>The Cache API\<close>

text \<open>
  A cache maps requests to responses; the cache storage of the origin is the list of its
  named caches in creation order. Only GET requests over http(s) are ever matched or
  stored; a partial (206) response and a response with the header \<^verbatim>\<open>Vary: *\<close> are
  refused by \<^verbatim>\<open>cache.put\<close> and by \<^verbatim>\<open>cache.addAll\<close>. A stored response is
  matched on the request's method and URL; the comparison of the request headers named by
  a Vary header other than \<^verbatim>\<open>*\<close> is not modelled. Opening, reading and deleting a
  cache do not fail.
\<close>

type_synonym cache = "request \<rightharpoonup> response"

type_synonym cache_storage = "(string \<times> cache) list"

definition cache_match :: "cache \<Rightarrow> request \<Rightarrow> response option" where
  \<comment> \<open>\<^verbatim>\<open>cache.match(request)\<close>\<close>
  "cache_match c req = (if req_method req = ''GET'' then c req else None)"

fun caches_match :: "cache_storage \<Rightarrow> request \<Rightarrow> response option" where
  \<comment> \<open>\<^verbatim>\<open>caches.match(request)\<close>: the first match over all caches, in creation order\<close>
  "caches_match [] req = None"
| "caches_match ((n, c) # st) req =
     (case cache_match c req of Some r \<Rightarrow> Some r | None \<Rightarrow> caches_match st req)"

definition caches_keys :: "cache_storage \<Rightarrow> string list" where
  "caches_keys st = map fst st"

definition caches_open :: "string \<Rightarrow> cache_storage \<Rightarrow> cache_storage" where
  \<comment> \<open>\<^verbatim>\<open>caches.open(name)\<close> creates the cache when there is none of that name\<close>
  "caches_open name st = (if name \<in> set (caches_keys st) then st else st @ [(name, Map.empty)])"

definition caches_delete :: "string \<Rightarrow> cache_storage \<Rightarrow> cache_storage" where
  "caches_delete name st = filter (\<lambda>(n, c). n \<noteq> name) st"

definition http_scheme :: "request \<Rightarrow> bool" where
  "http_scheme req =
     (startsWith (origin req) ''http://'' \<or> startsWith (origin req) ''https://'')"

definition put_allowed :: "request \<Rightarrow> response \<Rightarrow> bool" where
  \<comment> \<open>\<^verbatim>\<open>cache.put\<close> rejects with a TypeError otherwise\<close>
  "put_allowed req r =
     (req_method req = ''GET'' \<and> http_scheme req \<and> status r \<noteq> 206 \<and> \<not> vary_star r)"

definition addAll_accepts :: "response \<Rightarrow> bool" where
  \<comment> \<open>\<^verbatim>\<open>cache.addAll\<close> rejects with a TypeError when one of the fetched responses
      has a status outside the success range, is partial, or has the header
      \<^verbatim>\<open>Vary: *\<close>\<close>
  "addAll_accepts r = (ok r \<and> status r \<noteq> 206 \<and> \<not> vary_star r)"

definition store_put :: "string \<Rightarrow> request \<Rightarrow> response \<Rightarrow> cache_storage \<Rightarrow> cache_storage" where
  \<comment> \<open>the write of a \<^verbatim>\<open>cache.put\<close> on the cache opened under \<open>name\<close>\<close>
  "store_put name req r st = map (\<lambda>(n, c). if n = name then (n, c(req \<mapsto> r)) else (n, c)) st"

definition store_lookup :: "cache_storage \<Rightarrow> string \<Rightarrow> request \<Rightarrow> response option" where
  \<comment> \<open>\<^verbatim>\<open>caches.open(name).then(c => c.match(request))\<close> on an existing cache, and
      \<open>None\<close> when there is no cache of that name\<close>
  "store_lookup st name req =
     (case map_of st name of None \<Rightarrow> None | Some c \<Rightarrow> cache_match c req)"

definition Request_new :: "string \<Rightarrow> string \<Rightarrow> request" where
  \<comment> \<open>\<^verbatim>\<open>new Request(url)\<close> against the worker's origin, for the two forms of URL in
      \<^verbatim>\<open>urlsToCache\<close>: an absolute https URL and an absolute path\<close>
  "Request_new base u =
     (let (org, rest) =
            (if startsWith u ''https://''
             then (''https://'' @ takeWhile (\<lambda>c. c \<noteq> CHR ''/'') (drop 8 u),
                   dropWhile (\<lambda>c. c \<noteq> CHR ''/'') (drop 8 u))
             else (base, u))
      in \<lparr> req_method = ''GET'', origin = org,
           pathname = takeWhile (\<lambda>c. c \<noteq> CHR ''?'') rest,
           search = dropWhile (\<lambda>c. c \<noteq> CHR ''?'') rest \<rparr>)"

subsection \<open>The worker's state\<close>

datatype effect =
    ConsoleLog "string list"
  | NetFetch request
  | CachePut string request response
  | CacheDelete string
  | SkipWaiting
  | ClientsClaim

record worker =
  storage :: cache_storage
  skip_waiting_flag :: bool
  controls_clients :: bool
  trace :: "effect list"

definition emit :: "effect \<Rightarrow> worker \<Rightarrow> worker" where
  "emit e w = w\<lparr>trace := trace w @ [e]\<rparr>"

definition console_log :: "string list \<Rightarrow> worker \<Rightarrow> worker" where
  "console_log args w = emit (ConsoleLog args) w"

definition skipWaiting :: "worker \<Rightarrow> worker" where
  \<comment> \<open>\<^verbatim>\<open>self.skipWaiting()\<close>: the worker is promoted without waiting for the pages of
      the previous worker to close\<close>
  "skipWaiting w = emit SkipWaiting (w\<lparr>skip_waiting_flag := True\<rparr>)"

definition clients_claim :: "worker \<Rightarrow> worker" where
  \<comment> \<open>\<^verbatim>\<open>self.clients.claim()\<close>: the pages already open are controlled from now on\<close>
  "clients_claim w = emit ClientsClaim (w\<lparr>controls_clients := True\<rparr>)"

definition fetch :: "network \<Rightarrow> request \<Rightarrow> worker \<Rightarrow> (error + response) \<times> worker" where
  "fetch net req w = (net req, emit (NetFetch req) w)"

fun error_string :: "error \<Rightarrow> string" where
  "error_string TypeError = ''TypeError''"
| "error_string InvalidStateError = ''InvalidStateError''"

subsection \<open>Configuration (sw.js, lines 1 to 12)\<close>

definition CACHE_NAME :: string where
  "CACHE_NAME = ''ponto-eletronico-v1''"

definition urlsToCache :: "string list" where
  "urlsToCache =
     [''/'',
      ''/login'',
      ''/dashboard'',
      ''/static/css/style.css'',
      ''/static/js/app.js'',
      ''/static/manifest.json'',
      ''https://cdn.jsdelivr.net/npm/bootstrap@5.3.2/dist/css/bootstrap.min.css'',
      ''https://cdn.jsdelivr.net/npm/bootstrap-icons@1.11.1/font/bootstrap-icons.css'',
      ''https://cdn.jsdelivr.net/npm/bootstrap@5.3.2/dist/js/bootstrap.bundle.min.js'']"

subsection \<open>install (sw.js, lines 15 to 25)\<close>

fun fetch_all :: "network \<Rightarrow> request list \<Rightarrow> error + (request \<times> response) list" where
  \<comment> \<open>the fetches of \<^verbatim>\<open>cache.addAll\<close>: a failed fetch or a response that
      \<^verbatim>\<open>addAll\<close> does not accept rejects the whole call\<close>
  "fetch_all net [] = Inr []"
| "fetch_all net (q # qs) =
     (case net q of
        Inl e \<Rightarrow> Inl e
      | Inr r \<Rightarrow>
          if \<not> addAll_accepts r then Inl TypeError
          else (case fetch_all net qs of Inl e \<Rightarrow> Inl e | Inr xs \<Rightarrow> Inr ((q, r) # xs)))"

fun put_all :: "string \<Rightarrow> (request \<times> response) list \<Rightarrow> worker \<Rightarrow> worker" where
  "put_all name [] w = w"
| "put_all name ((q, r) # xs) w =
     put_all name xs (emit (CachePut name q r) (w\<lparr>storage := store_put name q r (storage w)\<rparr>))"

definition cache_addAll ::
  "network \<Rightarrow> string \<Rightarrow> string \<Rightarrow> string list \<Rightarrow> worker \<Rightarrow> (error + unit) \<times> worker" where
  \<comment> \<open>\<^verbatim>\<open>cache.addAll(urls)\<close> on the cache opened under \<open>name\<close>. The URLs are made into
      requests and fetched in order; a URL that is not http(s) rejects the call before its
      fetch. The responses are stored only when every fetch gave a response that
      \<^verbatim>\<open>addAll\<close> accepts, and then in one batch, which refuses two entries for the same
      request.\<close>
  "cache_addAll net base name urls w =
     (let reqs = map (Request_new base) urls in
      if \<not> list_all http_scheme reqs
      then (Inl TypeError, foldl (\<lambda>v q. emit (NetFetch q) v) w (takeWhile http_scheme reqs))
      else
        (let w1 = foldl (\<lambda>v q. emit (NetFetch q) v) w reqs
         in case fetch_all net reqs of
              Inl e \<Rightarrow> (Inl e, w1)
            | Inr xs \<Rightarrow>
                if \<not> distinct reqs then (Inl InvalidStateError, w1)
                else (Inr (), put_all name xs w1)))"

definition on_install :: "network \<Rightarrow> string \<Rightarrow> worker \<Rightarrow> (error + unit) \<times> worker" where
  \<comment> \<open>the result is the promise given to \<^verbatim>\<open>event.waitUntil\<close>: the installation
      succeeds when it is \<open>Inr\<close>. \<^verbatim>\<open>self.skipWaiting()\<close> runs in the synchronous part
      of the handler, before the chain.\<close>
  "on_install net base w =
     (let w1 = skipWaiting w;
          w2 = w1\<lparr>storage := caches_open CACHE_NAME (storage w1)\<rparr>;
          w3 = console_log [''Cache aberto''] w2
      in case cache_addAll net base CACHE_NAME urlsToCache w3 of
           (Inr u, w4) \<Rightarrow> (Inr u, w4)
         | (Inl err, w4) \<Rightarrow> (Inr (), console_log [''Erro no cache:'', error_string err] w4))"

subsection \<open>activate (sw.js, lines 28 to 42)\<close>

fun delete_old :: "string list \<Rightarrow> worker \<Rightarrow> worker" where
  \<comment> \<open>the \<^verbatim>\<open>cacheNames.map(...)\<close> of the handler, one step per cache name\<close>
  "delete_old [] w = w"
| "delete_old (cacheName # cacheNames) w =
     delete_old cacheNames
       (if cacheName \<noteq> CACHE_NAME
        then (let w1 = console_log [''Removendo cache antigo:'', cacheName] w
              in emit (CacheDelete cacheName) (w1\<lparr>storage := caches_delete cacheName (storage w1)\<rparr>))
        else w)"

definition on_activate :: "worker \<Rightarrow> worker" where
  \<comment> \<open>\<^verbatim>\<open>self.clients.claim()\<close> runs in the synchronous part of the handler\<close>
  "on_activate w = (let w1 = clients_claim w in delete_old (caches_keys (storage w1)) w1)"

subsection \<open>fetch (sw.js, lines 45 to 87)\<close>

definition is_api :: "request \<Rightarrow> bool" where
  \<comment> \<open>lines 49 to 51\<close>
  "is_api req =
     (startsWith (pathname req) ''/auth/'' \<or>
      startsWith (pathname req) ''/ponto/'' \<or>
      startsWith (pathname req) ''/admin/'')"

definition offline_message :: string where
  \<comment> \<open>'Offline - Conecte-se \<^verbatim>\<open>a\<close>-grave internet', the accented letter as its two UTF-8 bytes\<close>
  "offline_message = ''Offline - Conecte-se '' @ [CHR 0xC3, CHR 0xA0] @ '' internet''"

definition offline_response :: response where
  \<comment> \<open>lines 55 to 58\<close>
  "offline_response =
     Response_new (JSON_stringify (JSObject [(''error'', JSString offline_message)]))
       [(''Content-Type'', ''application/json'')]"

definition populate :: "request \<Rightarrow> response \<Rightarrow> worker \<Rightarrow> worker" where
  \<comment> \<open>lines 77 to 81; the clone of a response is the same value. A rejected
      \<^verbatim>\<open>cache.put\<close> is not observed by the handler.\<close>
  "populate req responseToCache w =
     (let w1 = w\<lparr>storage := caches_open CACHE_NAME (storage w)\<rparr>
      in if put_allowed req responseToCache
         then emit (CachePut CACHE_NAME req responseToCache)
                (w1\<lparr>storage := store_put CACHE_NAME req responseToCache (storage w1)\<rparr>)
         else w1)"

definition on_fetch :: "network \<Rightarrow> request \<Rightarrow> worker \<Rightarrow> (error + response) \<times> worker" where
  \<comment> \<open>the result is the promise given to \<^verbatim>\<open>event.respondWith\<close>. \<^verbatim>\<open>fetch\<close> resolves
      with a response object only, so the test \<^verbatim>\<open>!response\<close> of line 73 is never true.\<close>
  "on_fetch net req w =
     (if is_api req then
        (case fetch net req w of
           (Inr response, w1) \<Rightarrow> (Inr response, w1)
         | (Inl err, w1) \<Rightarrow> (Inr offline_response, w1))
      else
        (case caches_match (storage w) req of
           Some response \<Rightarrow> (Inr response, w)
         | None \<Rightarrow>
             (case fetch net req w of
                (Inl err, w1) \<Rightarrow> (Inl err, w1)
              | (Inr response, w1) \<Rightarrow>
                  if status response \<noteq> 200 \<or> response_type_string (rtype response) \<noteq> ''basic''
                  then (Inr response, w1)
                  else (Inr response, populate req response w1))))"

subsection \<open>message (sw.js, lines 90 to 94)\<close>

definition on_message :: "js_value \<Rightarrow> worker \<Rightarrow> worker" where
  "on_message data w = (if strict_eq_string data ''skipWaiting'' then skipWaiting w else w)"

subsection \<open>Concrete requests, responses, networks and worker states\<close>

definition ex_origin :: string where
  "ex_origin = ''https://ponto.example''"

definition ex_logout :: request where
  "ex_logout = \<lparr> req_method = ''POST'', origin = ex_origin, pathname = ''/auth/logout'', search = [] \<rparr>"

definition ex_style :: request where
  "ex_style = \<lparr> req_method = ''GET'', origin = ex_origin, pathname = ''/static/css/style.css'', search = [] \<rparr>"

definition ex_app :: request where
  "ex_app = \<lparr> req_method = ''GET'', origin = ex_origin, pathname = ''/static/js/app.js'', search = [] \<rparr>"

definition ex_css :: response where
  "ex_css = \<lparr> status = 200, statusText = ''OK'', rtype = Basic,
              headers = [(''content-type'', ''text/css'')], body = ''body{}'' \<rparr>"

definition ex_old_css :: response where
  "ex_old_css = \<lparr> status = 200, statusText = ''OK'', rtype = Basic,
                  headers = [(''content-type'', ''text/css'')], body = ''p{}'' \<rparr>"

definition ex_not_found :: response where
  "ex_not_found = \<lparr> status = 404, statusText = ''Not Found'', rtype = Basic,
                    headers = [(''content-type'', ''text/html'')], body = ''gone'' \<rparr>"

definition ex_varying :: response where
  \<comment> \<open>a same-origin 200 that no cache accepts\<close>
  "ex_varying = \<lparr> status = 200, statusText = ''OK'', rtype = Basic,
                  headers = [(''Content-Type'', ''text/html''), (''Vary'', ''Accept-Encoding, *'')],
                  body = ''hello'' \<rparr>"

definition offline :: network where
  "offline = (\<lambda>req. Inl TypeError)"

definition serving :: "response \<Rightarrow> network" where
  "serving r = (\<lambda>req. Inr r)"

definition fresh :: worker where
  \<comment> \<open>a worker before its first installation: no cache at all\<close>
  "fresh = \<lparr> storage = [], skip_waiting_flag = False, controls_clients = False, trace = [] \<rparr>"

definition seeded :: worker where
  \<comment> \<open>the current cache is the only one and holds the style sheet\<close>
  "seeded = \<lparr> storage = [(CACHE_NAME, [ex_style \<mapsto> ex_css])],
              skip_waiting_flag = True, controls_clients = True, trace = [] \<rparr>"

definition upgraded :: worker where
  \<comment> \<open>the cache of a previous version is still there, created before the current one\<close>
  "upgraded = \<lparr> storage = [(''ponto-eletronico-v0'', [ex_style \<mapsto> ex_old_css]),
                           (CACHE_NAME, [ex_style \<mapsto> ex_css])],
                skip_waiting_flag = True, controls_clients = False, trace = [] \<rparr>"

section \<open>Properties of the handlers\<close>

subsection \<open>The platform operations\<close>

lemma response_type_basic [simp]: "response_type_string t = ''basic'' \<longleftrightarrow> t = Basic"
  by (cases t) simp_all

lemma storage_emit [simp]: "storage (emit e w) = storage w"
  by (simp add: emit_def)

lemma trace_emit [simp]: "trace (emit e w) = trace w @ [e]"
  by (simp add: emit_def)

lemma in_keys_iff: "n \<in> set (caches_keys st) \<longleftrightarrow> map_of st n \<noteq> None"
  by (simp add: caches_keys_def map_of_eq_None_iff)

lemma caches_keys_open:
  "caches_keys (caches_open name st)
     = (if name \<in> set (caches_keys st) then caches_keys st else caches_keys st @ [name])"
  by (simp add: caches_open_def caches_keys_def)

lemma map_of_caches_open:
  "map_of (caches_open name st) n =
     (case map_of st n of
        Some c \<Rightarrow> Some c
      | None \<Rightarrow> if n = name \<and> name \<notin> set (caches_keys st) then Some Map.empty else None)"
  by (auto simp add: caches_open_def in_keys_iff map_add_def split: option.splits)

lemma store_lookup_open [simp]:
  "store_lookup (caches_open name st) n k = store_lookup st n k"
  by (simp add: store_lookup_def map_of_caches_open cache_match_def split: option.splits)

lemma caches_match_open [simp]:
  "caches_match (caches_open name st) req = caches_match st req"
proof -
  have "caches_match (st @ [(name, Map.empty)]) req = caches_match st req"
    by (induction st) (auto simp add: cache_match_def split: option.splits)
  then show ?thesis by (simp add: caches_open_def)
qed

lemma caches_keys_store_put [simp]:
  "caches_keys (store_put name q r st) = caches_keys st"
  by (induction st) (auto simp add: store_put_def caches_keys_def)

lemma map_of_store_put:
  "map_of (store_put name q r st) n =
     (case map_of st n of
        None \<Rightarrow> None
      | Some c \<Rightarrow> if n = name then Some (c(q \<mapsto> r)) else Some c)"
  by (induction st) (auto simp add: store_put_def)

lemma store_lookup_put:
  "store_lookup (store_put name q r st) n k =
     (if n = name \<and> name \<in> set (caches_keys st) \<and> k = q \<and> req_method q = ''GET'' then Some r
      else store_lookup st n k)"
  by (auto simp add: store_lookup_def map_of_store_put cache_match_def in_keys_iff
      split: option.splits)

lemma filter_others_open:
  "filter (\<lambda>(n, c). n \<noteq> name) (caches_open name st) = filter (\<lambda>(n, c). n \<noteq> name) st"
  by (simp add: caches_open_def)

lemma filter_others_put:
  "filter (\<lambda>(n, c). n \<noteq> name) (store_put name q r st) = filter (\<lambda>(n, c). n \<noteq> name) st"
  by (induction st) (auto simp add: store_put_def)

lemma map_of_filter_name:
  "map_of (filter (\<lambda>(n, c). n = name) st) k = (if k = name then map_of st k else None)"
  by (induction st) auto

text \<open>A request held by the named cache is found by the search over all caches.\<close>

lemma caches_match_hit_current:
  "store_lookup st name req = Some stored \<Longrightarrow> \<exists>response. caches_match st req = Some response"
proof (induction st)
  case Nil
  then show ?case by (simp add: store_lookup_def)
next
  case (Cons p st)
  obtain n c where p: "p = (n, c)" by (cases p)
  show ?case
  proof (cases "cache_match c req")
    case (Some r)
    then show ?thesis by (simp add: p)
  next
    case None
    with Cons.prems have "store_lookup st name req = Some stored"
      by (auto simp add: store_lookup_def p split: if_splits)
    with Cons.IH None show ?thesis by (simp add: p)
  qed
qed

lemma caches_match_miss_current:
  "caches_match st req = None \<Longrightarrow> store_lookup st name req = None"
proof (cases "store_lookup st name req")
  case None
  then show ?thesis .
next
  case (Some stored)
  then have "\<exists>response. caches_match st req = Some response"
    by (rule caches_match_hit_current)
  moreover assume "caches_match st req = None"
  ultimately show ?thesis by simp
qed

lemma caches_match_first_current:
  "store_lookup st name req = Some stored \<Longrightarrow>
   \<forall>(n, c) \<in> set st. n \<noteq> name \<longrightarrow> cache_match c req = None \<Longrightarrow>
   caches_match st req = Some stored"
proof (induction st)
  case Nil
  then show ?case by (simp add: store_lookup_def)
next
  case (Cons p st)
  obtain n c where p: "p = (n, c)" by (cases p)
  show ?case
  proof (cases "n = name")
    case True
    with Cons.prems(1) show ?thesis by (simp add: store_lookup_def p)
  next
    case False
    with Cons.prems have "cache_match c req = None" "store_lookup st name req = Some stored"
      by (auto simp add: store_lookup_def p)
    with Cons show ?thesis by (simp add: p)
  qed
qed

subsection \<open>The outcomes of the fetch handler\<close>

lemma offline_response_eq:
  "offline_response =
     \<lparr> status = 200, statusText = [], rtype = Default,
       headers = [(''content-type'', ''application/json'')],
       body = ''{\"error\":\"Offline - Conecte-se '' @ [CHR 0xC3, CHR 0xA0] @ '' internet\"}'' \<rparr>"
  by code_simp

lemma on_fetch_api:
  "is_api req \<Longrightarrow>
   on_fetch net req w =
     (case net req of Inr response \<Rightarrow> Inr response | Inl err \<Rightarrow> Inr offline_response,
      emit (NetFetch req) w)"
  by (simp add: on_fetch_def fetch_def split: sum.splits)

lemma on_fetch_hit:
  "\<not> is_api req \<Longrightarrow> caches_match (storage w) req = Some response \<Longrightarrow>
   on_fetch net req w = (Inr response, w)"
  by (simp add: on_fetch_def)

lemma on_fetch_miss_failed:
  "\<not> is_api req \<Longrightarrow> caches_match (storage w) req = None \<Longrightarrow> net req = Inl err \<Longrightarrow>
   on_fetch net req w = (Inl err, emit (NetFetch req) w)"
  by (simp add: on_fetch_def fetch_def)

lemma on_fetch_miss_skipped:
  "\<not> is_api req \<Longrightarrow> caches_match (storage w) req = None \<Longrightarrow> net req = Inr response \<Longrightarrow>
   status response \<noteq> 200 \<or> rtype response \<noteq> Basic \<Longrightarrow>
   on_fetch net req w = (Inr response, emit (NetFetch req) w)"
  by (auto simp add: on_fetch_def fetch_def)

lemma on_fetch_miss_stored:
  "\<not> is_api req \<Longrightarrow> caches_match (storage w) req = None \<Longrightarrow> net req = Inr response \<Longrightarrow>
   status response = 200 \<Longrightarrow> rtype response = Basic \<Longrightarrow>
   on_fetch net req w = (Inr response, populate req response (emit (NetFetch req) w))"
  by (simp add: on_fetch_def fetch_def)

lemma storage_populate:
  "storage (populate req r w) =
     (if put_allowed req r then store_put CACHE_NAME req r (caches_open CACHE_NAME (storage w))
      else caches_open CACHE_NAME (storage w))"
  by (simp add: populate_def)

lemma trace_populate:
  "trace (populate req r w) =
     (if put_allowed req r then trace w @ [CachePut CACHE_NAME req r] else trace w)"
  by (simp add: populate_def)

text \<open>The five outcomes of the fetch handler, as one case distinction.\<close>

lemma on_fetch_cases:
  obtains
    (api) "is_api req"
      "on_fetch net req w =
         (case net req of Inr response \<Rightarrow> Inr response | Inl err \<Rightarrow> Inr offline_response,
          emit (NetFetch req) w)"
  | (hit) response where "\<not> is_api req" "caches_match (storage w) req = Some response"
      "on_fetch net req w = (Inr response, w)"
  | (failed) err where "\<not> is_api req" "caches_match (storage w) req = None" "net req = Inl err"
      "on_fetch net req w = (Inl err, emit (NetFetch req) w)"
  | (skipped) response where "\<not> is_api req" "caches_match (storage w) req = None"
      "net req = Inr response" "status response \<noteq> 200 \<or> rtype response \<noteq> Basic"
      "on_fetch net req w = (Inr response, emit (NetFetch req) w)"
  | (stored) response where "\<not> is_api req" "caches_match (storage w) req = None"
      "net req = Inr response" "status response = 200" "rtype response = Basic"
      "on_fetch net req w = (Inr response, populate req response (emit (NetFetch req) w))"
proof (cases "is_api req")
  case True
  then show ?thesis using api on_fetch_api by blast
next
  case asset: False
  show ?thesis
  proof (cases "caches_match (storage w) req")
    case (Some response)
    then show ?thesis using asset hit on_fetch_hit by blast
  next
    case None
    show ?thesis
    proof (cases "net req")
      case (Inl err)
      then show ?thesis using asset None failed on_fetch_miss_failed by blast
    next
      case (Inr response)
      show ?thesis
      proof (cases "status response = 200 \<and> rtype response = Basic")
        case True
        then show ?thesis using asset None Inr stored on_fetch_miss_stored by blast
      next
        case False
        then have "status response \<noteq> 200 \<or> rtype response \<noteq> Basic" by blast
        then show ?thesis using asset None Inr skipped on_fetch_miss_skipped by blast
      qed
    qed
  qed
qed

text \<open>What a fetch event adds to the caches and to the trace.\<close>

lemma on_fetch_written:
  assumes "store_lookup (storage (snd (on_fetch net req w))) n k = Some r"
    and "store_lookup (storage w) n k \<noteq> Some r"
  shows "net req = Inr r \<and> status r = 200 \<and> rtype r = Basic \<and> n = CACHE_NAME \<and> k = req
         \<and> \<not> is_api req"
proof (cases net req w rule: on_fetch_cases)
  case api
  with assms show ?thesis by simp
next
  case (hit response)
  with assms show ?thesis by simp
next
  case (failed err)
  with assms show ?thesis by simp
next
  case (skipped response)
  with assms show ?thesis by simp
next
  case (stored response)
  with assms show ?thesis
    by (auto simp add: storage_populate store_lookup_put split: if_splits)
qed

lemma on_fetch_put_logged:
  assumes "CachePut n k r \<in> set (trace (snd (on_fetch net req w)))"
    and "CachePut n k r \<notin> set (trace w)"
  shows "net req = Inr r \<and> status r = 200 \<and> rtype r = Basic \<and> n = CACHE_NAME \<and> k = req
         \<and> \<not> is_api req"
proof (cases net req w rule: on_fetch_cases)
  case api
  with assms show ?thesis by simp
next
  case (hit response)
  with assms show ?thesis by simp
next
  case (failed err)
  with assms show ?thesis by simp
next
  case (skipped response)
  with assms show ?thesis by simp
next
  case (stored response)
  with assms show ?thesis
    by (auto simp add: trace_populate split: if_splits)
qed

lemma on_fetch_trace_extends:
  "\<exists>new. trace (snd (on_fetch net req w)) = trace w @ new"
  by (cases net req w rule: on_fetch_cases) (simp_all add: trace_populate)

lemma on_fetch_other_stores:
  "filter (\<lambda>(n, c). n \<noteq> CACHE_NAME) (storage (snd (on_fetch net req w)))
     = filter (\<lambda>(n, c). n \<noteq> CACHE_NAME) (storage w)"
  by (cases net req w rule: on_fetch_cases)
     (simp_all add: storage_populate filter_others_put filter_others_open)

lemma on_fetch_other_maps:
  "n \<noteq> CACHE_NAME \<Longrightarrow>
   map_of (storage (snd (on_fetch net req w))) n = map_of (storage w) n"
  by (cases net req w rule: on_fetch_cases)
     (auto simp add: storage_populate map_of_store_put map_of_caches_open split: option.splits)

lemma on_fetch_keys:
  "set (caches_keys (storage (snd (on_fetch net req w))))
     \<subseteq> insert CACHE_NAME (set (caches_keys (storage w)))"
  by (cases net req w rule: on_fetch_cases)
     (auto simp add: storage_populate caches_keys_open split: if_splits)

subsection \<open>The handlers on the concrete inputs\<close>

lemma ex_logout_api: "is_api ex_logout"
  by (simp add: is_api_def ex_logout_def startsWith_def)

lemma ex_style_asset: "\<not> is_api ex_style"
  by (simp add: is_api_def ex_style_def startsWith_def)

lemma ex_css_no_vary: "\<not> vary_star ex_css"
  by code_simp

lemma ex_varying_vary: "vary_star ex_varying"
  by code_simp

lemma put_allowed_style: "put_allowed ex_style ex_css"
  by (simp add: put_allowed_def http_scheme_def ex_css_no_vary)
     (simp add: ex_style_def ex_css_def ex_origin_def startsWith_def)

lemma put_allowed_app: "put_allowed ex_app ex_css"
  by (simp add: put_allowed_def http_scheme_def ex_css_no_vary)
     (simp add: ex_app_def ex_css_def ex_origin_def startsWith_def)

lemma fetch_fresh_css:
  "on_fetch (serving ex_css) ex_style fresh
     = (Inr ex_css, populate ex_style ex_css (emit (NetFetch ex_style) fresh))"
proof (rule on_fetch_miss_stored)
  show "\<not> is_api ex_style" by (rule ex_style_asset)
  show "caches_match (storage fresh) ex_style = None" by (simp add: fresh_def)
  show "serving ex_css ex_style = Inr ex_css" by (simp add: serving_def)
  show "status ex_css = 200" "rtype ex_css = Basic" by (simp_all add: ex_css_def)
qed

lemma populate_fresh_css:
  "populate ex_style ex_css (emit (NetFetch ex_style) fresh)
     = \<lparr> storage = [(CACHE_NAME, [ex_style \<mapsto> ex_css])], skip_waiting_flag = False,
         controls_clients = False,
         trace = [NetFetch ex_style, CachePut CACHE_NAME ex_style ex_css] \<rparr>"
  by (simp add: populate_def put_allowed_style emit_def fresh_def caches_open_def caches_keys_def
      store_put_def)

lemma upgraded_misses_app: "caches_match (storage upgraded) ex_app = None"
  by (simp add: upgraded_def cache_match_def ex_app_def ex_style_def)

lemma fetch_upgraded_app:
  "on_fetch (serving ex_css) ex_app upgraded
     = (Inr ex_css, populate ex_app ex_css (emit (NetFetch ex_app) upgraded))"
proof (rule on_fetch_miss_stored)
  show "\<not> is_api ex_app" by (simp add: is_api_def ex_app_def startsWith_def)
  show "caches_match (storage upgraded) ex_app = None" by (rule upgraded_misses_app)
  show "serving ex_css ex_app = Inr ex_css" by (simp add: serving_def)
  show "status ex_css = 200" "rtype ex_css = Basic" by (simp_all add: ex_css_def)
qed

lemma populate_upgraded_app:
  "populate ex_app ex_css (emit (NetFetch ex_app) upgraded)
     = \<lparr> storage = [(''ponto-eletronico-v0'', [ex_style \<mapsto> ex_old_css]),
                    (CACHE_NAME, [ex_style \<mapsto> ex_css, ex_app \<mapsto> ex_css])],
         skip_waiting_flag = True, controls_clients = False,
         trace = [NetFetch ex_app, CachePut CACHE_NAME ex_app ex_css] \<rparr>"
  by (simp add: populate_def put_allowed_app emit_def upgraded_def caches_open_def caches_keys_def
      store_put_def)
     (simp add: CACHE_NAME_def)

subsection \<open>The activate handler\<close>

lemma storage_delete_old:
  "storage (delete_old ns w) = filter (\<lambda>(n, c). n = CACHE_NAME \<or> n \<notin> set ns) (storage w)"
proof (induction ns arbitrary: w)
  case Nil
  then show ?case by simp
next
  case (Cons cacheName cacheNames)
  show ?case
  proof (cases "cacheName = CACHE_NAME")
    case True
    then show ?thesis by (auto simp add: Cons.IH intro: filter_cong)
  next
    case False
    then show ?thesis
      by (auto simp add: Cons.IH console_log_def caches_delete_def intro: filter_cong)
  qed
qed

lemma controls_delete_old: "controls_clients (delete_old ns w) = controls_clients w"
  by (induction ns arbitrary: w) (simp_all add: console_log_def emit_def)

lemma trace_delete_old_mono: "e \<in> set (trace w) \<Longrightarrow> e \<in> set (trace (delete_old ns w))"
  by (induction ns arbitrary: w) (simp_all add: console_log_def)

lemma trace_delete_old_logged:
  "n \<in> set ns \<Longrightarrow> n \<noteq> CACHE_NAME \<Longrightarrow> CacheDelete n \<in> set (trace (delete_old ns w))"
proof (induction ns arbitrary: w)
  case Nil
  then show ?case by simp
next
  case (Cons cacheName cacheNames)
  show ?case
  proof (cases "n = cacheName")
    case True
    with Cons.prems show ?thesis
      by (simp add: trace_delete_old_mono console_log_def)
  next
    case False
    with Cons.prems have "n \<in> set cacheNames" by simp
    with Cons.IH Cons.prems(2) show ?thesis by simp
  qed
qed

lemma storage_on_activate:
  "storage (on_activate w) = filter (\<lambda>(n, c). n = CACHE_NAME) (storage w)"
proof -
  have "storage (on_activate w)
          = filter (\<lambda>(n, c). n = CACHE_NAME \<or> n \<notin> set (caches_keys (storage w))) (storage w)"
    by (simp add: on_activate_def storage_delete_old clients_claim_def)
  also have "\<dots> = filter (\<lambda>(n, c). n = CACHE_NAME) (storage w)"
    by (rule filter_cong) (force simp add: caches_keys_def)+
  finally show ?thesis .
qed

subsection \<open>The install handler\<close>

lemma storage_fetch_log [simp]:
  "storage (foldl (\<lambda>v q. emit (NetFetch q) v) w qs) = storage w"
  by (induction qs arbitrary: w) simp_all

lemma skip_flag_emit [simp]: "skip_waiting_flag (emit e w) = skip_waiting_flag w"
  by (simp add: emit_def)

lemma skip_flag_fetch_log [simp]:
  "skip_waiting_flag (foldl (\<lambda>v q. emit (NetFetch q) v) w qs) = skip_waiting_flag w"
  by (induction qs arbitrary: w) simp_all

lemma skip_flag_put_all [simp]:
  "skip_waiting_flag (put_all name xs w) = skip_waiting_flag w"
  by (induction name xs w rule: put_all.induct) simp_all

lemma caches_keys_put_all [simp]:
  "caches_keys (storage (put_all name xs w)) = caches_keys (storage w)"
  by (induction name xs w rule: put_all.induct) simp_all

lemma fetch_all_ok:
  "\<forall>q \<in> set qs. \<exists>r. net q = Inr r \<and> addAll_accepts r \<Longrightarrow>
   \<exists>xs. fetch_all net qs = Inr xs \<and> map fst xs = qs \<and> (\<forall>(q, r) \<in> set xs. net q = Inr r)"
proof (induction qs)
  case Nil
  then show ?case by simp
next
  case (Cons q qs)
  then obtain xs where xs: "fetch_all net qs = Inr xs" "map fst xs = qs"
      "\<forall>(q, r) \<in> set xs. net q = Inr r"
    by auto
  from Cons.prems obtain r where r: "net q = Inr r" "addAll_accepts r" by auto
  with xs show ?case by simp
qed

lemma fetch_all_failed:
  "\<not> (\<forall>q \<in> set qs. \<exists>r. net q = Inr r \<and> addAll_accepts r) \<Longrightarrow>
   \<exists>e. fetch_all net qs = Inl e"
proof (induction qs)
  case Nil
  then show ?case by simp
next
  case (Cons q qs)
  show ?case
  proof (cases "net q")
    case (Inl e)
    then show ?thesis by simp
  next
    case (Inr r)
    show ?thesis
    proof (cases "addAll_accepts r")
      case True
      with Inr Cons.prems have "\<not> (\<forall>q \<in> set qs. \<exists>r. net q = Inr r \<and> addAll_accepts r)"
        by auto
      with Cons.IH obtain e where "fetch_all net qs = Inl e" by blast
      with Inr True show ?thesis by simp
    next
      case False
      with Inr show ?thesis by auto
    qed
  qed
qed

lemma put_all_lookup:
  assumes "name \<in> set (caches_keys (storage w))"
    and "\<forall>(q, r) \<in> set xs. req_method q = ''GET'' \<and> net q = Inr r"
    and "(q, r) \<in> set xs \<or> (store_lookup (storage w) name q = Some r \<and> net q = Inr r)"
  shows "store_lookup (storage (put_all name xs w)) name q = Some r"
  using assms
proof (induction xs arbitrary: w)
  case Nil
  then show ?case by simp
next
  case (Cons p xs)
  obtain q' r' where p: "p = (q', r')" by (cases p)
  let ?w = "emit (CachePut name q' r') (w\<lparr>storage := store_put name q' r' (storage w)\<rparr>)"
  from Cons.prems(2) have head: "req_method q' = ''GET''" "net q' = Inr r'"
    and tail: "\<forall>(q, r) \<in> set xs. req_method q = ''GET'' \<and> net q = Inr r"
    by (auto simp add: p)
  have keys: "name \<in> set (caches_keys (storage ?w))"
    using Cons.prems(1) by simp
  have "(q, r) \<in> set xs \<or> (store_lookup (storage ?w) name q = Some r \<and> net q = Inr r)"
  proof (cases "(q, r) \<in> set xs")
    case True
    then show ?thesis by simp
  next
    case False
    with Cons.prems(3) consider "q = q'" "r = r'"
      | "store_lookup (storage w) name q = Some r" "net q = Inr r"
      by (auto simp add: p)
    then show ?thesis
    proof cases
      case 1
      with head Cons.prems(1) show ?thesis by (simp add: store_lookup_put)
    next
      case 2
      with head Cons.prems(1) show ?thesis by (auto simp add: store_lookup_put)
    qed
  qed
  with Cons.IH [OF keys tail] show ?case by (simp add: p)
qed

lemma Request_new_GET [simp]: "req_method (Request_new base u) = ''GET''"
  by (simp add: Request_new_def Let_def split: prod.splits)

lemma storage_skipWaiting [simp]: "storage (skipWaiting w) = storage w"
  by (simp add: skipWaiting_def)

lemma storage_console_log [simp]: "storage (console_log a w) = storage w"
  by (simp add: console_log_def)

lemma skip_flag_console_log [simp]: "skip_waiting_flag (console_log a w) = skip_waiting_flag w"
  by (simp add: console_log_def)

lemma skip_flag_skipWaiting [simp]: "skip_waiting_flag (skipWaiting w)"
  by (simp add: skipWaiting_def)

lemma CACHE_NAME_opened: "CACHE_NAME \<in> set (caches_keys (caches_open CACHE_NAME st))"
  by (simp add: caches_keys_open)

lemma seed_pathnames:
  "map (\<lambda>u. pathname (Request_new base u)) urlsToCache =
     [''/'', ''/login'', ''/dashboard'', ''/static/css/style.css'', ''/static/js/app.js'',
      ''/static/manifest.json'',
      ''/npm/bootstrap@5.3.2/dist/css/bootstrap.min.css'',
      ''/npm/bootstrap-icons@1.11.1/font/bootstrap-icons.css'',
      ''/npm/bootstrap@5.3.2/dist/js/bootstrap.bundle.min.js'']"
  by (simp add: urlsToCache_def Request_new_def startsWith_def)

lemma seeds_distinct: "distinct (map (Request_new base) urlsToCache)"
proof -
  have "distinct (map pathname (map (Request_new base) urlsToCache))"
    by (simp add: seed_pathnames comp_def)
  then show ?thesis by (rule distinct_map [THEN iffD1, THEN conjunct1])
qed

text \<open>The two outcomes of \<^verbatim>\<open>cache.addAll\<close> and of the install handler.\<close>

lemma cache_addAll_stored:
  assumes "list_all http_scheme (map (Request_new base) urls)"
    and "fetch_all net (map (Request_new base) urls) = Inr xs"
    and "distinct (map (Request_new base) urls)"
  shows "cache_addAll net base name urls w =
           (Inr (), put_all name xs
                      (foldl (\<lambda>v q. emit (NetFetch q) v) w (map (Request_new base) urls)))"
  using assms by (simp add: cache_addAll_def Let_def)

lemma cache_addAll_rejected:
  assumes "\<not> list_all http_scheme (map (Request_new base) urls)
           \<or> (\<exists>e. fetch_all net (map (Request_new base) urls) = Inl e)"
  shows "\<exists>e w'. cache_addAll net base name urls w = (Inl e, w')
               \<and> storage w' = storage w \<and> skip_waiting_flag w' = skip_waiting_flag w"
proof (cases "list_all http_scheme (map (Request_new base) urls)")
  case False
  then show ?thesis by (simp add: cache_addAll_def Let_def)
next
  case True
  with assms obtain e where "fetch_all net (map (Request_new base) urls) = Inl e" by blast
  with True show ?thesis by (simp add: cache_addAll_def Let_def)
qed

lemma on_install_seeded:
  assumes "list_all http_scheme (map (Request_new base) urlsToCache)"
    and "fetch_all net (map (Request_new base) urlsToCache) = Inr xs"
  shows "on_install net base w =
           (Inr (),
            put_all CACHE_NAME xs
              (foldl (\<lambda>v q. emit (NetFetch q) v)
                 (console_log [''Cache aberto'']
                    ((skipWaiting w)\<lparr>storage := caches_open CACHE_NAME (storage (skipWaiting w))\<rparr>))
                 (map (Request_new base) urlsToCache)))"
  using assms seeds_distinct [of base]
  by (simp add: on_install_def cache_addAll_stored Let_def)

lemma on_install_unseeded:
  assumes "\<not> list_all http_scheme (map (Request_new base) urlsToCache)
           \<or> (\<exists>e. fetch_all net (map (Request_new base) urlsToCache) = Inl e)"
  shows "\<exists>e w'. on_install net base w = (Inr (), console_log [''Erro no cache:'', error_string e] w')
               \<and> storage w' = caches_open CACHE_NAME (storage w) \<and> skip_waiting_flag w'"
proof -
  let ?w3 = "console_log [''Cache aberto'']
               ((skipWaiting w)\<lparr>storage := caches_open CACHE_NAME (storage (skipWaiting w))\<rparr>)"
  from cache_addAll_rejected [OF assms, of CACHE_NAME ?w3]
  obtain e w' where r: "cache_addAll net base CACHE_NAME urlsToCache ?w3 = (Inl e, w')"
      "storage w' = storage ?w3" "skip_waiting_flag w' = skip_waiting_flag ?w3"
    by blast
  from r(1) have "on_install net base w = (Inr (), console_log [''Erro no cache:'', error_string e] w')"
    by (simp add: on_install_def Let_def)
  moreover from r(2) have "storage w' = caches_open CACHE_NAME (storage w)" by simp
  moreover from r(3) have "skip_waiting_flag w'" by simp
  ultimately show ?thesis by blast
qed

lemma on_install_cases:
  obtains
    (seeded) xs where "list_all http_scheme (map (Request_new base) urlsToCache)"
      "fetch_all net (map (Request_new base) urlsToCache) = Inr xs"
      "on_install net base w =
         (Inr (),
          put_all CACHE_NAME xs
            (foldl (\<lambda>v q. emit (NetFetch q) v)
               (console_log [''Cache aberto'']
                  ((skipWaiting w)\<lparr>storage := caches_open CACHE_NAME (storage (skipWaiting w))\<rparr>))
               (map (Request_new base) urlsToCache)))"
  | (unseeded) e w' where
      "\<not> list_all http_scheme (map (Request_new base) urlsToCache)
       \<or> (\<exists>e. fetch_all net (map (Request_new base) urlsToCache) = Inl e)"
      "on_install net base w = (Inr (), console_log [''Erro no cache:'', error_string e] w')"
      "storage w' = caches_open CACHE_NAME (storage w)" "skip_waiting_flag w'"
proof (cases "list_all http_scheme (map (Request_new base) urlsToCache)")
  case False
  then have c: "\<not> list_all http_scheme (map (Request_new base) urlsToCache)
       \<or> (\<exists>e. fetch_all net (map (Request_new base) urlsToCache) = Inl e)" by blast
  with on_install_unseeded [OF c, of w] unseeded show ?thesis by blast
next
  case True
  show ?thesis
  proof (cases "fetch_all net (map (Request_new base) urlsToCache)")
    case (Inl e)
    then have c: "\<not> list_all http_scheme (map (Request_new base) urlsToCache)
       \<or> (\<exists>e. fetch_all net (map (Request_new base) urlsToCache) = Inl e)" by blast
    with on_install_unseeded [OF c, of w] unseeded show ?thesis by blast
  next
    case (Inr xs)
    with True seeded on_install_seeded show ?thesis by blast
  qed
qed

lemma on_install_resolves: "fst (on_install net base w) = Inr ()"
  by (rule on_install_cases [where net = net and base = base and w = w]) simp_all

lemma on_install_skips_waiting: "skip_waiting_flag (snd (on_install net base w))"
  by (rule on_install_cases [where net = net and base = base and w = w]) simp_all

lemma on_install_opens: "CACHE_NAME \<in> set (caches_keys (storage (snd (on_install net base w))))"
  by (rule on_install_cases [where net = net and base = base and w = w])
     (simp_all add: CACHE_NAME_opened)

lemma on_install_all_stored:
  assumes ok: "\<forall>u \<in> set urlsToCache.
                 http_scheme (Request_new base u)
                 \<and> (\<exists>r. net (Request_new base u) = Inr r \<and> addAll_accepts r)"
    and u: "u \<in> set urlsToCache"
  shows "\<exists>r. net (Request_new base u) = Inr r
          \<and> store_lookup (storage (snd (on_install net base w))) CACHE_NAME (Request_new base u)
              = Some r"
proof -
  let ?qs = "map (Request_new base) urlsToCache"
  let ?w = "foldl (\<lambda>v q. emit (NetFetch q) v)
                 (console_log [''Cache aberto'']
                    ((skipWaiting w)\<lparr>storage := caches_open CACHE_NAME (storage (skipWaiting w))\<rparr>))
                 ?qs"
  from ok have scheme: "list_all http_scheme ?qs" by (simp add: list_all_iff)
  from ok have "\<forall>q \<in> set ?qs. \<exists>r. net q = Inr r \<and> addAll_accepts r" by simp
  then obtain xs where xs: "fetch_all net ?qs = Inr xs" "map fst xs = ?qs"
      "\<forall>(q, r) \<in> set xs. net q = Inr r"
    using fetch_all_ok by blast
  have inst: "on_install net base w = (Inr (), put_all CACHE_NAME xs ?w)"
    using scheme xs(1) by (rule on_install_seeded)
  have keys: "CACHE_NAME \<in> set (caches_keys (storage ?w))"
    by (simp add: CACHE_NAME_opened)
  have "\<forall>q \<in> set (map fst xs). req_method q = ''GET''" by (simp add: xs(2))
  with xs(3) have gets: "\<forall>(q, r) \<in> set xs. req_method q = ''GET'' \<and> net q = Inr r"
    by auto
  from u have "Request_new base u \<in> set (map fst xs)" by (simp add: xs(2))
  then obtain r where r: "(Request_new base u, r) \<in> set xs" by auto
  with xs(3) have n: "net (Request_new base u) = Inr r" by auto
  from r have "(Request_new base u, r) \<in> set xs
      \<or> (store_lookup (storage ?w) CACHE_NAME (Request_new base u) = Some r
          \<and> net (Request_new base u) = Inr r)" ..
  with keys gets
  have "store_lookup (storage (put_all CACHE_NAME xs ?w)) CACHE_NAME (Request_new base u) = Some r"
    by (rule put_all_lookup)
  with n show ?thesis by (simp add: inst)
qed

lemma on_install_none_stored:
  assumes "\<not> (\<forall>u \<in> set urlsToCache.
                 http_scheme (Request_new base u)
                 \<and> (\<exists>r. net (Request_new base u) = Inr r \<and> addAll_accepts r))"
  shows "storage (snd (on_install net base w)) = caches_open CACHE_NAME (storage w)"
proof -
  let ?qs = "map (Request_new base) urlsToCache"
  have "\<not> list_all http_scheme ?qs \<or> (\<exists>e. fetch_all net ?qs = Inl e)"
  proof (cases "list_all http_scheme ?qs")
    case False
    then show ?thesis by blast
  next
    case True
    with assms have "\<not> (\<forall>q \<in> set ?qs. \<exists>r. net q = Inr r \<and> addAll_accepts r)"
      by (auto simp add: list_all_iff)
    then show ?thesis using fetch_all_failed by blast
  qed
  from on_install_unseeded [OF this, of w] show ?thesis by auto
qed

lemma root_is_seed: "''/'' \<in> set urlsToCache"
  by (simp add: urlsToCache_def)

lemma seeds_http: "\<forall>u \<in> set urlsToCache. http_scheme (Request_new ex_origin u)"
  by code_simp

lemma ex_css_accepted: "addAll_accepts ex_css"
  by (simp add: addAll_accepts_def ex_css_no_vary) (simp add: ok_def ex_css_def)

lemma ex_varying_refused: "\<not> addAll_accepts ex_varying"
  by (simp add: addAll_accepts_def ex_varying_vary)

lemma serving_css_all_ok:
  "\<forall>u \<in> set urlsToCache.
     http_scheme (Request_new ex_origin u)
     \<and> (\<exists>r. serving ex_css (Request_new ex_origin u) = Inr r \<and> addAll_accepts r)"
  using seeds_http by (simp add: serving_def ex_css_accepted)

lemma offline_not_all_ok:
  "\<not> (\<forall>u \<in> set urlsToCache.
         http_scheme (Request_new ex_origin u)
         \<and> (\<exists>r. offline (Request_new ex_origin u) = Inr r \<and> addAll_accepts r))"
  using root_is_seed by (auto simp add: offline_def)

lemma serving_varying_not_all_ok:
  "\<not> (\<forall>u \<in> set urlsToCache.
         http_scheme (Request_new ex_origin u)
         \<and> (\<exists>r. serving ex_varying (Request_new ex_origin u) = Inr r \<and> addAll_accepts r))"
  using root_is_seed by (auto simp add: serving_def ex_varying_refused)

section \<open>The specified behaviour, claim by claim\<close>

subsection \<open>C1: network first for API requests\<close>

text \<open>
  C1. For a request whose path starts with /auth/, /ponto/ or /admin/: when the network
  fetch resolves, the handler resolves with that very response; when it rejects, the handler
  resolves with a synthesized response of status 200, content type application/json and
  the JSON text of the object with the single member error, "Offline - Conecte-se \<^verbatim>\<open>a\<close>-grave
  internet". In both cases the result is a response, never the rejection.
\<close>

theorem api_network_first:
  assumes "is_api req"
  shows "(\<forall>response. net req = Inr response \<longrightarrow> fst (on_fetch net req w) = Inr response)
       \<and> (\<forall>err. net req = Inl err \<longrightarrow>
            (\<exists>r. fst (on_fetch net req w) = Inr r
               \<and> status r = 200 \<and> ok r
               \<and> header_get r ''Content-Type'' = Some ''application/json''
               \<and> JSON_stringify (JSObject [(''error'', JSString offline_message)]) = Some (body r)
               \<and> body r = ''{\"error\":\"Offline - Conecte-se '' @ [CHR 0xC3, CHR 0xA0] @ '' internet\"}''))"
proof (intro conjI allI impI)
  fix response assume "net req = Inr response"
  then show "fst (on_fetch net req w) = Inr response"
    using assms by (simp add: on_fetch_api)
next
  fix err assume "net req = Inl err"
  then have "fst (on_fetch net req w) = Inr offline_response"
    using assms by (simp add: on_fetch_api)
  moreover have "status offline_response = 200" "ok offline_response"
    by (simp_all add: offline_response_eq ok_def)
  moreover have "header_get offline_response ''Content-Type'' = Some ''application/json''"
    by code_simp
  moreover have "JSON_stringify (JSObject [(''error'', JSString offline_message)])
                   = Some (body offline_response)"
    by (simp add: offline_response_def Response_new_def)
  moreover have "body offline_response
                   = ''{\"error\":\"Offline - Conecte-se '' @ [CHR 0xC3, CHR 0xA0] @ '' internet\"}''"
    by (simp add: offline_response_eq)
  ultimately show "\<exists>r. fst (on_fetch net req w) = Inr r
               \<and> status r = 200 \<and> ok r
               \<and> header_get r ''Content-Type'' = Some ''application/json''
               \<and> JSON_stringify (JSObject [(''error'', JSString offline_message)]) = Some (body r)
               \<and> body r = ''{\"error\":\"Offline - Conecte-se '' @ [CHR 0xC3, CHR 0xA0] @ '' internet\"}''"
    by blast
qed

text \<open>
  C1 at POST /auth/logout, once with a network that answers and once offline.
\<close>

theorem api_network_first_witness:
  "is_api ex_logout
   \<and> serving ex_css ex_logout = Inr ex_css
   \<and> fst (on_fetch (serving ex_css) ex_logout fresh) = Inr ex_css
   \<and> offline ex_logout = Inl TypeError
   \<and> (\<exists>r. fst (on_fetch offline ex_logout fresh) = Inr r \<and> status r = 200
          \<and> header_get r ''Content-Type'' = Some ''application/json'')"
  using api_network_first [OF ex_logout_api, of "serving ex_css" fresh]
        api_network_first [OF ex_logout_api, of offline fresh]
  by (auto simp add: ex_logout_api serving_def offline_def)

subsection \<open>C2: cache first for assets\<close>

text \<open>
  C2, as the code has it. For a request that is not an API request: when
  \<^verbatim>\<open>caches.match\<close> finds a response, the handler resolves with it and leaves the worker
  as it was, so that no network fetch is made. A request held by the current cache is
  always found; the response served is the one of the first cache, in creation order, that
  holds the request, which is the one of the current cache when no cache of another name
  holds the request.
\<close>

theorem asset_cache_first:
  assumes "\<not> is_api req"
  shows "(\<forall>response. caches_match (storage w) req = Some response \<longrightarrow>
            on_fetch net req w = (Inr response, w))
       \<and> (\<forall>stored. store_lookup (storage w) CACHE_NAME req = Some stored \<longrightarrow>
            (\<exists>response. caches_match (storage w) req = Some response
                       \<and> on_fetch net req w = (Inr response, w)
                       \<and> ((\<forall>(n, c) \<in> set (storage w). n \<noteq> CACHE_NAME \<longrightarrow> cache_match c req = None)
                            \<longrightarrow> response = stored)))"
proof (intro conjI allI impI)
  fix response assume "caches_match (storage w) req = Some response"
  with assms show "on_fetch net req w = (Inr response, w)" by (rule on_fetch_hit)
next
  fix stored assume s: "store_lookup (storage w) CACHE_NAME req = Some stored"
  then obtain response where r: "caches_match (storage w) req = Some response"
    using caches_match_hit_current by blast
  with assms have "on_fetch net req w = (Inr response, w)" by (rule on_fetch_hit)
  moreover have "response = stored"
    if "\<forall>(n, c) \<in> set (storage w). n \<noteq> CACHE_NAME \<longrightarrow> cache_match c req = None"
    using caches_match_first_current [OF s that] r by simp
  ultimately show "\<exists>response. caches_match (storage w) req = Some response
                       \<and> on_fetch net req w = (Inr response, w)
                       \<and> ((\<forall>(n, c) \<in> set (storage w). n \<noteq> CACHE_NAME \<longrightarrow> cache_match c req = None)
                            \<longrightarrow> response = stored)"
    using r by blast
qed

text \<open>
  C2 at the style sheet held by the only cache, with the network down: the stored response
  is served and the worker, its trace included, is unchanged.
\<close>

theorem asset_cache_first_witness:
  "\<not> is_api ex_style
   \<and> caches_match (storage seeded) ex_style = Some ex_css
   \<and> store_lookup (storage seeded) CACHE_NAME ex_style = Some ex_css
   \<and> caches_keys (storage seeded) = [CACHE_NAME]
   \<and> on_fetch offline ex_style seeded = (Inr ex_css, seeded)"
proof -
  have m: "caches_match (storage seeded) ex_style = Some ex_css"
    by (simp add: seeded_def cache_match_def ex_style_def)
  have l: "store_lookup (storage seeded) CACHE_NAME ex_style = Some ex_css"
    by (simp add: seeded_def store_lookup_def cache_match_def ex_style_def)
  have k: "caches_keys (storage seeded) = [CACHE_NAME]"
    by (simp add: seeded_def caches_keys_def)
  have f: "\<forall>(n, c) \<in> set (storage seeded). n \<noteq> CACHE_NAME \<longrightarrow> cache_match c ex_style = None"
    by (simp add: seeded_def)
  from asset_cache_first [OF ex_style_asset, of seeded offline] m l f
  have "on_fetch offline ex_style seeded = (Inr ex_css, seeded)" by auto
  with m l k show ?thesis by (simp add: ex_style_asset)
qed

text \<open>
  C2 as stated fails where the cache of a previous version is still present and holds the
  same request: the current cache holds one response for the style sheet, and the handler
  serves the other one, stored in the older cache.
\<close>

theorem asset_cache_first_counterexample:
  "\<not> is_api ex_style
   \<and> store_lookup (storage upgraded) CACHE_NAME ex_style = Some ex_css
   \<and> fst (on_fetch offline ex_style upgraded) = Inr ex_old_css
   \<and> ex_old_css \<noteq> ex_css"
proof -
  have m: "caches_match (storage upgraded) ex_style = Some ex_old_css"
    by (simp add: upgraded_def cache_match_def ex_style_def)
  have l: "store_lookup (storage upgraded) CACHE_NAME ex_style = Some ex_css"
    by (simp add: upgraded_def store_lookup_def cache_match_def ex_style_def CACHE_NAME_def)
  have d: "ex_old_css \<noteq> ex_css"
    by (simp add: ex_old_css_def ex_css_def)
  show ?thesis
    using on_fetch_hit [OF ex_style_asset m] l d by (simp add: ex_style_asset)
qed

subsection \<open>C3: only same-origin 200 responses are stored\<close>

text \<open>
  C3. For an asset request that no cache matches and whose network response has a status
  other than 200 or a type other than "basic": the handler resolves with that response, the
  cache storage is left as it was, and the request still matches no cache, so that the
  current cache holds no response for it. For any fetch
  event at all: a response that a cache holds afterwards and did not hold before, and a
  response of a \<^verbatim>\<open>cache.put\<close> made by the event, has status 200 and type "basic".
\<close>

theorem asset_ineligible_not_cached:
  "(\<forall>response. \<not> is_api req \<and> caches_match (storage w) req = None \<and> net req = Inr response
        \<and> (status response \<noteq> 200 \<or> response_type_string (rtype response) \<noteq> ''basic'') \<longrightarrow>
        fst (on_fetch net req w) = Inr response
      \<and> storage (snd (on_fetch net req w)) = storage w
      \<and> caches_match (storage (snd (on_fetch net req w))) req = None
      \<and> store_lookup (storage (snd (on_fetch net req w))) CACHE_NAME req = None)
 \<and> (\<forall>n k r. store_lookup (storage (snd (on_fetch net req w))) n k = Some r
        \<and> store_lookup (storage w) n k \<noteq> Some r \<longrightarrow>
        status r = 200 \<and> response_type_string (rtype r) = ''basic'')
 \<and> (\<forall>n k r. CachePut n k r \<in> set (trace (snd (on_fetch net req w)))
        \<and> CachePut n k r \<notin> set (trace w) \<longrightarrow>
        status r = 200 \<and> response_type_string (rtype r) = ''basic'')"
proof (intro conjI allI impI)
  fix response
  assume a: "\<not> is_api req \<and> caches_match (storage w) req = None \<and> net req = Inr response
        \<and> (status response \<noteq> 200 \<or> response_type_string (rtype response) \<noteq> ''basic'')"
  then have f: "on_fetch net req w = (Inr response, emit (NetFetch req) w)"
    by (simp add: on_fetch_miss_skipped)
  show "fst (on_fetch net req w) = Inr response" by (simp add: f)
  show "storage (snd (on_fetch net req w)) = storage w" by (simp add: f)
  show "caches_match (storage (snd (on_fetch net req w))) req = None" using a by (simp add: f)
  then show "store_lookup (storage (snd (on_fetch net req w))) CACHE_NAME req = None"
    by (rule caches_match_miss_current)
next
  fix n k r
  assume "store_lookup (storage (snd (on_fetch net req w))) n k = Some r
        \<and> store_lookup (storage w) n k \<noteq> Some r"
  then show "status r = 200" "response_type_string (rtype r) = ''basic''"
    using on_fetch_written [of net req w n k r] by simp_all
next
  fix n k r
  assume "CachePut n k r \<in> set (trace (snd (on_fetch net req w)))
        \<and> CachePut n k r \<notin> set (trace w)"
  then show "status r = 200" "response_type_string (rtype r) = ''basic''"
    using on_fetch_put_logged [of n k r net req w] by simp_all
qed

text \<open>
  C3 at the style sheet on a worker without caches: a 404 is handed on and nothing is
  stored; a same-origin 200 is stored.
\<close>

theorem asset_ineligible_not_cached_witness:
  "(\<not> is_api ex_style \<and> caches_match (storage fresh) ex_style = None
      \<and> serving ex_not_found ex_style = Inr ex_not_found
      \<and> status ex_not_found \<noteq> 200)
   \<and> fst (on_fetch (serving ex_not_found) ex_style fresh) = Inr ex_not_found
   \<and> storage (snd (on_fetch (serving ex_not_found) ex_style fresh)) = storage fresh
   \<and> (store_lookup (storage (snd (on_fetch (serving ex_css) ex_style fresh))) CACHE_NAME ex_style
        = Some ex_css
      \<and> store_lookup (storage fresh) CACHE_NAME ex_style \<noteq> Some ex_css)
   \<and> (CachePut CACHE_NAME ex_style ex_css
        \<in> set (trace (snd (on_fetch (serving ex_css) ex_style fresh)))
      \<and> CachePut CACHE_NAME ex_style ex_css \<notin> set (trace fresh))
   \<and> status ex_css = 200 \<and> response_type_string (rtype ex_css) = ''basic''"
proof -
  have 1: "\<not> is_api ex_style \<and> caches_match (storage fresh) ex_style = None
      \<and> serving ex_not_found ex_style = Inr ex_not_found
      \<and> (status ex_not_found \<noteq> 200 \<or> response_type_string (rtype ex_not_found) \<noteq> ''basic'')"
    by (simp add: ex_style_asset fresh_def serving_def ex_not_found_def)
  have s: "storage (snd (on_fetch (serving ex_css) ex_style fresh))
             = [(CACHE_NAME, [ex_style \<mapsto> ex_css])]"
    by (simp add: fetch_fresh_css populate_fresh_css)
  have t: "trace (snd (on_fetch (serving ex_css) ex_style fresh))
             = [NetFetch ex_style, CachePut CACHE_NAME ex_style ex_css]"
    by (simp add: fetch_fresh_css populate_fresh_css)
  have 2: "store_lookup (storage (snd (on_fetch (serving ex_css) ex_style fresh))) CACHE_NAME ex_style
       = Some ex_css
      \<and> store_lookup (storage fresh) CACHE_NAME ex_style \<noteq> Some ex_css"
    by (simp add: s store_lookup_def cache_match_def) (simp add: ex_style_def fresh_def)
  have 3: "CachePut CACHE_NAME ex_style ex_css
             \<in> set (trace (snd (on_fetch (serving ex_css) ex_style fresh)))
      \<and> CachePut CACHE_NAME ex_style ex_css \<notin> set (trace fresh)"
    by (simp add: t) (simp add: fresh_def)
  note skip = asset_ineligible_not_cached [of ex_style fresh "serving ex_not_found"]
  note store = asset_ineligible_not_cached [of ex_style fresh "serving ex_css"]
  from skip 1 have a: "fst (on_fetch (serving ex_not_found) ex_style fresh) = Inr ex_not_found
      \<and> storage (snd (on_fetch (serving ex_not_found) ex_style fresh)) = storage fresh"
    by blast
  from store 2 have b: "status ex_css = 200 \<and> response_type_string (rtype ex_css) = ''basic''"
    by blast
  have 4: "status ex_not_found \<noteq> 200" by (simp add: ex_not_found_def)
  from 1 2 3 4 a b show ?thesis by blast
qed

subsection \<open>C4: installation and the seed list\<close>

text \<open>
  C4 as stated fails when a seed cannot be fetched. With the network down the promise given
  to \<^verbatim>\<open>waitUntil\<close> still resolves, so the installation succeeds; the cache named
  \<^verbatim>\<open>CACHE_NAME\<close> has been created and is the only one, and the seed URL '/' looks up
  to nothing in it.
\<close>

theorem install_all_or_nothing_counterexample:
  "fst (on_install offline ex_origin fresh) = Inr ()
   \<and> caches_keys (storage (snd (on_install offline ex_origin fresh))) = [CACHE_NAME]
   \<and> ''/'' \<in> set urlsToCache
   \<and> offline (Request_new ex_origin ''/'') = Inl TypeError
   \<and> store_lookup (storage (snd (on_install offline ex_origin fresh))) CACHE_NAME
        (Request_new ex_origin ''/'') = None"
proof -
  have s: "storage (snd (on_install offline ex_origin fresh)) = caches_open CACHE_NAME (storage fresh)"
    using offline_not_all_ok by (rule on_install_none_stored)
  then have "storage (snd (on_install offline ex_origin fresh)) = [(CACHE_NAME, Map.empty)]"
    by (simp add: fresh_def caches_open_def caches_keys_def)
  then have "caches_keys (storage (snd (on_install offline ex_origin fresh))) = [CACHE_NAME]"
    and "store_lookup (storage (snd (on_install offline ex_origin fresh))) CACHE_NAME
        (Request_new ex_origin ''/'') = None"
    by (simp_all add: caches_keys_def store_lookup_def cache_match_def)
  then show ?thesis
    by (simp add: on_install_resolves root_is_seed offline_def)
qed

text \<open>
  C4, as the code has it. The installation always succeeds: a rejection of
  \<^verbatim>\<open>cache.addAll\<close> is caught and logged, and \<^verbatim>\<open>skipWaiting\<close> has been called. The
  cache named \<^verbatim>\<open>CACHE_NAME\<close> exists afterwards. When every URL of \<^verbatim>\<open>urlsToCache\<close>
  is an http(s) URL and is fetched with a response that \<^verbatim>\<open>addAll\<close> accepts (a success
  status other than 206 and no header \<^verbatim>\<open>Vary: *\<close>), every one of them looks up, in
  that cache, to the response the network gave for it. Otherwise no seed is written: the
  cache storage is the one before the installation with the cache opened.
\<close>

theorem install_best_effort:
  "fst (on_install net base w) = Inr ()
 \<and> skip_waiting_flag (snd (on_install net base w))
 \<and> CACHE_NAME \<in> set (caches_keys (storage (snd (on_install net base w))))
 \<and> ((\<forall>u \<in> set urlsToCache.
         http_scheme (Request_new base u)
         \<and> (\<exists>r. net (Request_new base u) = Inr r
                \<and> ok r \<and> status r \<noteq> 206 \<and> \<not> vary_star r)) \<longrightarrow>
      (\<forall>u \<in> set urlsToCache. \<exists>r. net (Request_new base u) = Inr r
          \<and> store_lookup (storage (snd (on_install net base w))) CACHE_NAME (Request_new base u)
              = Some r))
 \<and> (\<not> (\<forall>u \<in> set urlsToCache.
            http_scheme (Request_new base u)
            \<and> (\<exists>r. net (Request_new base u) = Inr r
                   \<and> ok r \<and> status r \<noteq> 206 \<and> \<not> vary_star r)) \<longrightarrow>
      storage (snd (on_install net base w)) = caches_open CACHE_NAME (storage w))"
proof (intro conjI impI ballI)
  show "fst (on_install net base w) = Inr ()" by (rule on_install_resolves)
  show "skip_waiting_flag (snd (on_install net base w))" by (rule on_install_skips_waiting)
  show "CACHE_NAME \<in> set (caches_keys (storage (snd (on_install net base w))))"
    by (rule on_install_opens)
next
  fix u
  assume "\<forall>u \<in> set urlsToCache.
         http_scheme (Request_new base u)
         \<and> (\<exists>r. net (Request_new base u) = Inr r
                \<and> ok r \<and> status r \<noteq> 206 \<and> \<not> vary_star r)"
  then have "\<forall>u \<in> set urlsToCache.
                 http_scheme (Request_new base u)
                 \<and> (\<exists>r. net (Request_new base u) = Inr r \<and> addAll_accepts r)"
    by (simp add: addAll_accepts_def)
  moreover assume "u \<in> set urlsToCache"
  ultimately show "\<exists>r. net (Request_new base u) = Inr r
          \<and> store_lookup (storage (snd (on_install net base w))) CACHE_NAME (Request_new base u)
              = Some r"
    by (rule on_install_all_stored)
next
  assume "\<not> (\<forall>u \<in> set urlsToCache.
            http_scheme (Request_new base u)
            \<and> (\<exists>r. net (Request_new base u) = Inr r
                   \<and> ok r \<and> status r \<noteq> 206 \<and> \<not> vary_star r))"
  then have "\<not> (\<forall>u \<in> set urlsToCache.
                 http_scheme (Request_new base u)
                 \<and> (\<exists>r. net (Request_new base u) = Inr r \<and> addAll_accepts r))"
    by (simp add: addAll_accepts_def)
  then show "storage (snd (on_install net base w)) = caches_open CACHE_NAME (storage w)"
    by (rule on_install_none_stored)
qed

text \<open>
  C4 as amended, on a worker without caches: with a network that serves every seed, with
  the network down, and with a network whose responses carry \<^verbatim>\<open>Vary: *\<close>.
\<close>

theorem install_best_effort_witness:
  "fst (on_install (serving ex_css) ex_origin fresh) = Inr ()
   \<and> ''/'' \<in> set urlsToCache
   \<and> store_lookup (storage (snd (on_install (serving ex_css) ex_origin fresh))) CACHE_NAME
        (Request_new ex_origin ''/'') = Some ex_css
   \<and> fst (on_install offline ex_origin fresh) = Inr ()
   \<and> storage (snd (on_install offline ex_origin fresh)) = [(CACHE_NAME, Map.empty)]
   \<and> ok ex_varying \<and> vary_star ex_varying
   \<and> fst (on_install (serving ex_varying) ex_origin fresh) = Inr ()
   \<and> storage (snd (on_install (serving ex_varying) ex_origin fresh)) = [(CACHE_NAME, Map.empty)]"
proof -
  note on = install_best_effort [of "serving ex_css" ex_origin fresh]
  note off = install_best_effort [of offline ex_origin fresh]
  note vary = install_best_effort [of "serving ex_varying" ex_origin fresh]
  have all_ok: "\<forall>u \<in> set urlsToCache.
         http_scheme (Request_new ex_origin u)
         \<and> (\<exists>r. serving ex_css (Request_new ex_origin u) = Inr r
                \<and> ok r \<and> status r \<noteq> 206 \<and> \<not> vary_star r)"
    using serving_css_all_ok by (simp add: addAll_accepts_def)
  have none_ok: "\<not> (\<forall>u \<in> set urlsToCache.
         http_scheme (Request_new ex_origin u)
         \<and> (\<exists>r. offline (Request_new ex_origin u) = Inr r
                \<and> ok r \<and> status r \<noteq> 206 \<and> \<not> vary_star r))"
    using offline_not_all_ok by (simp add: addAll_accepts_def)
  have vary_refused: "\<not> (\<forall>u \<in> set urlsToCache.
         http_scheme (Request_new ex_origin u)
         \<and> (\<exists>r. serving ex_varying (Request_new ex_origin u) = Inr r
                \<and> ok r \<and> status r \<noteq> 206 \<and> \<not> vary_star r))"
    using serving_varying_not_all_ok by (simp add: addAll_accepts_def)
  have empty: "caches_open CACHE_NAME (storage fresh) = [(CACHE_NAME, Map.empty)]"
    by (simp add: fresh_def caches_open_def caches_keys_def)
  from on all_ok root_is_seed
  have "\<exists>r. serving ex_css (Request_new ex_origin ''/'') = Inr r
          \<and> store_lookup (storage (snd (on_install (serving ex_css) ex_origin fresh))) CACHE_NAME
               (Request_new ex_origin ''/'') = Some r"
    by blast
  then have 1: "store_lookup (storage (snd (on_install (serving ex_css) ex_origin fresh))) CACHE_NAME
        (Request_new ex_origin ''/'') = Some ex_css"
    by (simp add: serving_def)
  from off none_ok
  have "storage (snd (on_install offline ex_origin fresh)) = caches_open CACHE_NAME (storage fresh)"
    by blast
  then have 2: "storage (snd (on_install offline ex_origin fresh)) = [(CACHE_NAME, Map.empty)]"
    by (simp only: empty)
  from on have 3: "fst (on_install (serving ex_css) ex_origin fresh) = Inr ()" by blast
  from off have 4: "fst (on_install offline ex_origin fresh) = Inr ()" by blast
  from vary vary_refused
  have "storage (snd (on_install (serving ex_varying) ex_origin fresh))
          = caches_open CACHE_NAME (storage fresh)"
    by blast
  then have 5: "storage (snd (on_install (serving ex_varying) ex_origin fresh))
                  = [(CACHE_NAME, Map.empty)]"
    by (simp only: empty)
  from vary have 6: "fst (on_install (serving ex_varying) ex_origin fresh) = Inr ()" by blast
  have 7: "ok ex_varying" by (simp add: ok_def ex_varying_def)
  from 1 2 3 4 5 6 7 ex_varying_vary root_is_seed show ?thesis by blast
qed

subsection \<open>C5: activation deletes the caches of other versions\<close>

text \<open>
  C5. After the activate handler, the cache storage holds exactly the caches named
  \<^verbatim>\<open>CACHE_NAME\<close> that it held before, unchanged: no cache of another name is left, each
  of them was deleted by a \<^verbatim>\<open>caches.delete\<close>, and the current cache is retained. The
  handler has called \<^verbatim>\<open>clients.claim\<close>, so that the worker controls the pages already
  open.
\<close>

theorem activate_purges_stale_stores:
  "storage (on_activate w) = filter (\<lambda>(n, c). n = CACHE_NAME) (storage w)
 \<and> (\<forall>n. n \<noteq> CACHE_NAME \<longrightarrow>
        n \<notin> set (caches_keys (storage (on_activate w)))
      \<and> map_of (storage (on_activate w)) n = None
      \<and> (n \<in> set (caches_keys (storage w)) \<longrightarrow> CacheDelete n \<in> set (trace (on_activate w))))
 \<and> map_of (storage (on_activate w)) CACHE_NAME = map_of (storage w) CACHE_NAME
 \<and> controls_clients (on_activate w)
 \<and> ClientsClaim \<in> set (trace (on_activate w))"
proof (intro conjI allI impI)
  show "storage (on_activate w) = filter (\<lambda>(n, c). n = CACHE_NAME) (storage w)"
    by (rule storage_on_activate)
  show "map_of (storage (on_activate w)) CACHE_NAME = map_of (storage w) CACHE_NAME"
    by (simp add: storage_on_activate map_of_filter_name)
  show "controls_clients (on_activate w)"
    by (simp add: on_activate_def controls_delete_old clients_claim_def emit_def)
  show "ClientsClaim \<in> set (trace (on_activate w))"
    by (simp add: on_activate_def trace_delete_old_mono clients_claim_def)
next
  fix n :: string
  assume n: "n \<noteq> CACHE_NAME"
  then show "n \<notin> set (caches_keys (storage (on_activate w)))"
    by (auto simp add: storage_on_activate caches_keys_def)
  from n show "map_of (storage (on_activate w)) n = None"
    by (simp add: storage_on_activate map_of_filter_name)
  assume "n \<in> set (caches_keys (storage w))"
  with n show "CacheDelete n \<in> set (trace (on_activate w))"
    by (simp add: on_activate_def trace_delete_old_logged clients_claim_def)
qed

text \<open>
  C5 on a worker that still has the cache of version v0 beside its own.
\<close>

theorem activate_purges_stale_stores_witness:
  "''ponto-eletronico-v0'' \<noteq> CACHE_NAME
   \<and> ''ponto-eletronico-v0'' \<in> set (caches_keys (storage upgraded))
   \<and> ''ponto-eletronico-v0'' \<notin> set (caches_keys (storage (on_activate upgraded)))
   \<and> CacheDelete ''ponto-eletronico-v0'' \<in> set (trace (on_activate upgraded))
   \<and> storage (on_activate upgraded) = [(CACHE_NAME, [ex_style \<mapsto> ex_css])]
   \<and> controls_clients (on_activate upgraded)"
proof -
  have 1: "''ponto-eletronico-v0'' \<noteq> CACHE_NAME" by (simp add: CACHE_NAME_def)
  have 2: "''ponto-eletronico-v0'' \<in> set (caches_keys (storage upgraded))"
    by (simp add: upgraded_def caches_keys_def)
  have 3: "filter (\<lambda>(n, c). n = CACHE_NAME) (storage upgraded) = [(CACHE_NAME, [ex_style \<mapsto> ex_css])]"
    by (simp add: upgraded_def) (simp add: CACHE_NAME_def)
  note th = activate_purges_stale_stores [of upgraded]
  from th 1 2 have 4: "''ponto-eletronico-v0'' \<notin> set (caches_keys (storage (on_activate upgraded)))
       \<and> CacheDelete ''ponto-eletronico-v0'' \<in> set (trace (on_activate upgraded))"
    by blast
  from th 3 have 5: "storage (on_activate upgraded) = [(CACHE_NAME, [ex_style \<mapsto> ex_css])]"
    by simp
  from th have 6: "controls_clients (on_activate upgraded)" by blast
  from 1 2 4 5 6 show ?thesis by blast
qed

subsection \<open>C6: when the fetch handler resolves\<close>

text \<open>
  C6 as stated fails for an asset that no cache holds while the network is down: the
  promise given to \<^verbatim>\<open>respondWith\<close> rejects with the error of the network.
\<close>

theorem router_always_resolves_counterexample:
  "\<not> is_api ex_style \<and> fst (on_fetch offline ex_style fresh) = Inl TypeError"
  by (simp add: on_fetch_miss_failed ex_style_asset fresh_def offline_def)

text \<open>
  C6, as the code has it. For an API request the handler always resolves with a response.
  For an asset request it resolves with a response exactly when a cache matches the request
  or the network fetch resolves. The handler rejects only for an asset request that no
  cache matches and whose network fetch rejects, and then with the error of the network.
\<close>

theorem router_resolves_or_rejects:
  "(is_api req \<longrightarrow> (\<exists>response. fst (on_fetch net req w) = Inr response))
 \<and> (\<not> is_api req \<longrightarrow>
      ((\<exists>response. fst (on_fetch net req w) = Inr response)
        \<longleftrightarrow> caches_match (storage w) req \<noteq> None \<or> (\<exists>response. net req = Inr response)))
 \<and> (\<forall>err. fst (on_fetch net req w) = Inl err \<longleftrightarrow>
        \<not> is_api req \<and> caches_match (storage w) req = None \<and> net req = Inl err)"
proof -
  have a: "\<exists>response. fst (on_fetch net req w) = Inr response" if "is_api req"
    using that by (simp add: on_fetch_api split: sum.splits)
  have b: "fst (on_fetch net req w) =
             (case caches_match (storage w) req of
                Some response \<Rightarrow> Inr response
              | None \<Rightarrow> net req)" if "\<not> is_api req"
    using that by (auto simp add: on_fetch_def fetch_def split: option.splits sum.splits)
  show ?thesis
  proof (cases "is_api req")
    case True
    with a show ?thesis by auto
  next
    case False
    show ?thesis
      using False b [OF False]
      by (cases "caches_match (storage w) req"; cases "net req") auto
  qed
qed

text \<open>
  C6 as amended, at an API request and at a cached asset, both with the network down.
\<close>

theorem router_resolves_or_rejects_witness:
  "is_api ex_logout
   \<and> (\<exists>response. fst (on_fetch offline ex_logout fresh) = Inr response)
   \<and> \<not> is_api ex_style
   \<and> caches_match (storage seeded) ex_style \<noteq> None
   \<and> (\<exists>response. fst (on_fetch offline ex_style seeded) = Inr response)"
proof -
  have m: "caches_match (storage seeded) ex_style \<noteq> None"
    by (simp add: seeded_def cache_match_def ex_style_def)
  from router_resolves_or_rejects [of ex_logout offline fresh] ex_logout_api
  have 1: "\<exists>response. fst (on_fetch offline ex_logout fresh) = Inr response" by blast
  from router_resolves_or_rejects [of ex_style offline seeded] ex_style_asset m
  have 2: "\<exists>response. fst (on_fetch offline ex_style seeded) = Inr response" by blast
  from 1 2 m ex_logout_api ex_style_asset show ?thesis by blast
qed

subsection \<open>C7: a failed asset fetch is handed on\<close>

text \<open>
  C7. For an asset request that no cache matches and whose network fetch rejects, the
  handler rejects with the same error: no response is substituted. The worker is left as it
  was, but for the record of the fetch.
\<close>

theorem asset_failure_propagates:
  assumes "\<not> is_api req" and "caches_match (storage w) req = None" and "net req = Inl err"
  shows "fst (on_fetch net req w) = Inl err
       \<and> snd (on_fetch net req w) = w\<lparr>trace := trace w @ [NetFetch req]\<rparr>"
  using assms by (simp add: on_fetch_miss_failed emit_def)

text \<open>
  C7 at the style sheet, on a worker without caches and with the network down.
\<close>

theorem asset_failure_propagates_witness:
  "\<not> is_api ex_style \<and> caches_match (storage fresh) ex_style = None
   \<and> offline ex_style = Inl TypeError
   \<and> fst (on_fetch offline ex_style fresh) = Inl TypeError
   \<and> storage (snd (on_fetch offline ex_style fresh)) = []"
proof -
  have m: "caches_match (storage fresh) ex_style = None" by (simp add: fresh_def)
  have n: "offline ex_style = Inl TypeError" by (simp add: offline_def)
  from asset_failure_propagates [where req = ex_style and w = fresh and net = offline
      and err = TypeError] m n
  show ?thesis by (simp add: ex_style_asset fresh_def)
qed

subsection \<open>C8: API requests leave the caches alone\<close>

text \<open>
  C8. Handling an API request changes no cache: the cache storage after the event is the
  one before it, whether the network answered or the offline response was synthesized. The
  only effect of the event is the network fetch.
\<close>

theorem api_leaves_caches_alone:
  assumes "is_api req"
  shows "storage (snd (on_fetch net req w)) = storage w
       \<and> snd (on_fetch net req w) = w\<lparr>trace := trace w @ [NetFetch req]\<rparr>"
  using assms by (simp add: on_fetch_api emit_def)

text \<open>
  C8 at POST /auth/logout on a worker with two caches, online and offline.
\<close>

theorem api_leaves_caches_alone_witness:
  "is_api ex_logout
   \<and> storage (snd (on_fetch (serving ex_css) ex_logout upgraded)) = storage upgraded
   \<and> storage (snd (on_fetch offline ex_logout upgraded)) = storage upgraded"
  using api_leaves_caches_alone [OF ex_logout_api, of "serving ex_css" upgraded]
        api_leaves_caches_alone [OF ex_logout_api, of offline upgraded]
  by (simp add: ex_logout_api)

subsection \<open>C9: the control message\<close>

text \<open>
  C9. The message handler calls \<^verbatim>\<open>skipWaiting\<close> exactly when the payload is the string
  'skipWaiting'; for every other payload the worker is left as it was.
\<close>

theorem message_skipWaiting:
  "on_message data w =
     (if data = JSString ''skipWaiting''
      then w\<lparr>skip_waiting_flag := True, trace := trace w @ [SkipWaiting]\<rparr>
      else w)"
  by (cases data) (simp_all add: on_message_def strict_eq_string_def skipWaiting_def emit_def)

text \<open>
  C9 at the recognized payload, at another string and at an object that carries the word.
\<close>

theorem message_skipWaiting_witness:
  "on_message (JSString ''skipWaiting'') fresh
     = fresh\<lparr>skip_waiting_flag := True, trace := [SkipWaiting]\<rparr>
   \<and> on_message (JSString ''SkipWaiting'') fresh = fresh
   \<and> on_message (JSObject [(''type'', JSString ''skipWaiting'')]) fresh = fresh"
  using message_skipWaiting [of "JSString ''skipWaiting''" fresh]
        message_skipWaiting [of "JSString ''SkipWaiting''" fresh]
        message_skipWaiting [of "JSObject [(''type'', JSString ''skipWaiting'')]" fresh]
  by (simp add: fresh_def)

subsection \<open>C10: fetch handling writes to the current cache only\<close>

text \<open>
  C10. \<^verbatim>\<open>CACHE_NAME\<close> is 'ponto-eletronico-v1'. Every \<^verbatim>\<open>cache.put\<close> made by a fetch
  event, and every response that a cache holds after the event and did not hold before, is
  in the cache of that name. The caches of every other name are the same after the event as
  before it, in the same order, and the only cache the event can create is the one named
  \<^verbatim>\<open>CACHE_NAME\<close>.
\<close>

theorem fetch_writes_current_store_only:
  "CACHE_NAME = ''ponto-eletronico-v1''
 \<and> (\<exists>new. trace (snd (on_fetch net req w)) = trace w @ new)
 \<and> (\<forall>n k r. CachePut n k r \<in> set (trace (snd (on_fetch net req w)))
        \<and> CachePut n k r \<notin> set (trace w) \<longrightarrow> n = CACHE_NAME)
 \<and> (\<forall>n k r. store_lookup (storage (snd (on_fetch net req w))) n k = Some r
        \<and> store_lookup (storage w) n k \<noteq> Some r \<longrightarrow> n = CACHE_NAME)
 \<and> filter (\<lambda>(n, c). n \<noteq> CACHE_NAME) (storage (snd (on_fetch net req w)))
      = filter (\<lambda>(n, c). n \<noteq> CACHE_NAME) (storage w)
 \<and> (\<forall>n. n \<noteq> CACHE_NAME \<longrightarrow>
        map_of (storage (snd (on_fetch net req w))) n = map_of (storage w) n)
 \<and> set (caches_keys (storage (snd (on_fetch net req w))))
      \<subseteq> insert CACHE_NAME (set (caches_keys (storage w)))"
proof (intro conjI allI impI)
  show "CACHE_NAME = ''ponto-eletronico-v1''" by (simp add: CACHE_NAME_def)
  show "\<exists>new. trace (snd (on_fetch net req w)) = trace w @ new"
    by (rule on_fetch_trace_extends)
  show "filter (\<lambda>(n, c). n \<noteq> CACHE_NAME) (storage (snd (on_fetch net req w)))
      = filter (\<lambda>(n, c). n \<noteq> CACHE_NAME) (storage w)"
    by (rule on_fetch_other_stores)
  show "set (caches_keys (storage (snd (on_fetch net req w))))
      \<subseteq> insert CACHE_NAME (set (caches_keys (storage w)))"
    by (rule on_fetch_keys)
next
  fix n k r
  assume "CachePut n k r \<in> set (trace (snd (on_fetch net req w)))
        \<and> CachePut n k r \<notin> set (trace w)"
  then show "n = CACHE_NAME" using on_fetch_put_logged [of n k r net req w] by simp
next
  fix n k r
  assume "store_lookup (storage (snd (on_fetch net req w))) n k = Some r
        \<and> store_lookup (storage w) n k \<noteq> Some r"
  then show "n = CACHE_NAME" using on_fetch_written [of net req w n k r] by simp
next
  fix n :: string
  assume "n \<noteq> CACHE_NAME"
  then show "map_of (storage (snd (on_fetch net req w))) n = map_of (storage w) n"
    by (rule on_fetch_other_maps)
qed

text \<open>
  C10 at a script that no cache holds, on a worker that still has the cache of version v0:
  the response goes into the current cache and the older cache is untouched.
\<close>

theorem fetch_writes_current_store_only_witness:
  "(CachePut CACHE_NAME ex_app ex_css \<in> set (trace (snd (on_fetch (serving ex_css) ex_app upgraded)))
      \<and> CachePut CACHE_NAME ex_app ex_css \<notin> set (trace upgraded))
   \<and> (store_lookup (storage (snd (on_fetch (serving ex_css) ex_app upgraded))) CACHE_NAME ex_app
        = Some ex_css
      \<and> store_lookup (storage upgraded) CACHE_NAME ex_app \<noteq> Some ex_css)
   \<and> ''ponto-eletronico-v0'' \<noteq> CACHE_NAME
   \<and> map_of (storage (snd (on_fetch (serving ex_css) ex_app upgraded))) ''ponto-eletronico-v0''
        = map_of (storage upgraded) ''ponto-eletronico-v0''
   \<and> CACHE_NAME = ''ponto-eletronico-v1''"
proof -
  have s: "storage (snd (on_fetch (serving ex_css) ex_app upgraded))
             = [(''ponto-eletronico-v0'', [ex_style \<mapsto> ex_old_css]),
                (CACHE_NAME, [ex_style \<mapsto> ex_css, ex_app \<mapsto> ex_css])]"
    by (simp add: fetch_upgraded_app populate_upgraded_app)
  have t: "trace (snd (on_fetch (serving ex_css) ex_app upgraded))
             = [NetFetch ex_app, CachePut CACHE_NAME ex_app ex_css]"
    by (simp add: fetch_upgraded_app populate_upgraded_app)
  have 1: "CachePut CACHE_NAME ex_app ex_css
             \<in> set (trace (snd (on_fetch (serving ex_css) ex_app upgraded)))
      \<and> CachePut CACHE_NAME ex_app ex_css \<notin> set (trace upgraded)"
    by (simp add: t) (simp add: upgraded_def)
  have 2: "store_lookup (storage (snd (on_fetch (serving ex_css) ex_app upgraded))) CACHE_NAME ex_app
        = Some ex_css
      \<and> store_lookup (storage upgraded) CACHE_NAME ex_app \<noteq> Some ex_css"
    by (simp add: s store_lookup_def)
       (simp add: upgraded_def cache_match_def CACHE_NAME_def ex_app_def ex_style_def)
  have 3: "''ponto-eletronico-v0'' \<noteq> CACHE_NAME" by (simp add: CACHE_NAME_def)
  note th = fetch_writes_current_store_only [of "serving ex_css" ex_app upgraded]
  from th 3 have 4: "map_of (storage (snd (on_fetch (serving ex_css) ex_app upgraded))) ''ponto-eletronico-v0''
        = map_of (storage upgraded) ''ponto-eletronico-v0''"
    by blast
  from th have 5: "CACHE_NAME = ''ponto-eletronico-v1''" by blast
  from 1 2 3 4 5 show ?thesis by blast
qed

end
